theory Spec2Isabelle
  imports Main "HOL-Library.Sublist"
begin

section \<open>The embedding endpoint of colpali\_modal\_app.py\<close>

text \<open>
  The development embeds \<^verbatim>\<open>ColpaliModalService.generate_embeddings_endpoint\<close> and its
  helpers \<^verbatim>\<open>_decode_image\<close> and \<^verbatim>\<open>_clear_gpu_memory\<close>
  (src/morphik-external/scripts/colpali\_modal\_app.py).

  The processor, the model, the base64 decoder and the image library are external
  collaborators: they are fields of an environment record. The GPU is stateful, so the
  processor and the model receive the trace of the calls made so far and may answer
  differently at different moments (a batch may run out of memory now and fit later).
  Every call that the claims speak about is recorded in that trace, in the order in
  which the code makes it.

  In the source as it stands, lines 160 to 163 (the \<^verbatim>\<open>with torch.no_grad()\<close> block, the
  conversion to lists and the \<^verbatim>\<open>extend\<close>) stand at the indentation of the
  \<^verbatim>\<open>try:\<close> of line 159 that they follow, not one level deeper (and line 93 at that of
  its \<^verbatim>\<open>else:\<close>). The model reads them as the beginning of the body of that
  \<^verbatim>\<open>try\<close>, with lines 166 to 172: the handler of line 174 looks for the out-of-memory
  error that only the model call of line 161 can raise.
\<close>

subsection \<open>Values, exceptions, responses\<close>

text \<open>An item of \<^verbatim>\<open>payload.inputs\<close>: a string, or any other JSON value (the
  \<^verbatim>\<open>isinstance(text, str)\<close> test of line 152 tells them apart).\<close>

datatype pyval = PStr string | PNonStr

fun is_str :: "pyval \<Rightarrow> bool" where
  "is_str (PStr s) = True"
| "is_str PNonStr = False"

text \<open>The exceptions the handlers distinguish: \<^verbatim>\<open>ValueError\<close> (line 206),
  \<^verbatim>\<open>RuntimeError\<close> (line 174; torch's out-of-memory error is one), and every other
  \<^verbatim>\<open>Exception\<close> (lines 198 and 209). The string is \<^verbatim>\<open>str(e)\<close>.\<close>

datatype exn = ValueError string | RuntimeError string | OtherException string

text \<open>What the endpoint returns: the dictionary \<^verbatim>\<open>{"embeddings": ...}\<close>, or a
  \<^verbatim>\<open>JSONResponse\<close> with an error text and a status code.\<close>

datatype 'vec response = Embeddings "'vec list" | ErrorResponse string nat

text \<open>The recorded calls: the processor (\<^verbatim>\<open>process_images\<close> or
  \<^verbatim>\<open>process_queries\<close>, moved to the device), the model, and
  \<^verbatim>\<open>_clear_gpu_memory\<close> (\<^verbatim>\<open>torch.cuda.empty_cache()\<close> followed by
  \<^verbatim>\<open>gc.collect()\<close>, lines 112 to 117).\<close>

datatype event = ProcessorCall | ModelCall | Reclaim

type_synonym trace = "event list"

record ('img, 'pb, 'vec) env =
  b64_open :: "string \<Rightarrow> string + 'img"
  process_images :: "trace \<Rightarrow> 'img list \<Rightarrow> exn + 'pb"
  process_queries :: "trace \<Rightarrow> pyval list \<Rightarrow> exn + 'pb"
  truthy :: "'pb \<Rightarrow> bool"
  run_model :: "trace \<Rightarrow> 'pb \<Rightarrow> exn + 'vec list"

text \<open>
  \<^item> \<open>b64_open\<close> is \<^verbatim>\<open>open_image(io.BytesIO(base64.b64decode(s)))\<close> of lines 107
    and 108; \<open>Inl m\<close> is an exception whose text is \<open>m\<close>.
  \<^item> \<open>process_images\<close> and \<open>process_queries\<close> are the processor calls followed by
    \<^verbatim>\<open>.to(self.device)\<close>.
  \<^item> \<open>truthy\<close> is the truth value of the processed batch (\<^verbatim>\<open>if processed_batch:\<close>,
    line 158).
  \<^item> \<open>run_model\<close> is \<^verbatim>\<open>self.model(**processed_batch)\<close> under \<^verbatim>\<open>no_grad\<close> followed by
    \<^verbatim>\<open>.to(torch.float32).cpu().numpy().tolist()\<close>: the vectors that \<^verbatim>\<open>extend\<close>
    appends, or the exception raised on the way.
\<close>

text \<open>What one iteration of the batch loop does to the control flow: it raises, it
  returns a response from the endpoint, or it goes on to the next batch with the
  accumulated \<^verbatim>\<open>all_embeddings_list\<close>.\<close>

datatype 'vec flow = Raise exn | Return "'vec response" | Next "'vec list"

subsection \<open>\<^verbatim>\<open>_decode_image\<close>\<close>

text \<open>\<^verbatim>\<open>base64_string.split(",", 1)[1]\<close>: what follows the first comma;
  \<open>None\<close> is the \<^verbatim>\<open>IndexError\<close> when there is no comma.\<close>

fun after_comma :: "string \<Rightarrow> string option" where
  "after_comma [] = None"
| "after_comma (c # cs) = (if c = CHR '','' then Some cs else after_comma cs)"

fun decode_image :: "('img, 'pb, 'vec) env \<Rightarrow> pyval \<Rightarrow> exn + 'img" where
  "decode_image env PNonStr = Inl (OtherException ''AttributeError: startswith'')"
| "decode_image env (PStr s) =
     (if prefix ''data:'' s then
        (case after_comma s of
           None \<Rightarrow> Inl (ValueError ''Malformed data URI string for image decoding.'')
         | Some rest \<Rightarrow>
             (case b64_open env rest of
                Inl m \<Rightarrow> Inl (ValueError (''Failed to decode base64 image: '' @ m))
              | Inr img \<Rightarrow> Inr img))
      else
        (case b64_open env s of
           Inl m \<Rightarrow> Inl (ValueError (''Failed to decode base64 image: '' @ m))
         | Inr img \<Rightarrow> Inr img))"

text \<open>The list comprehension of line 148: the first item that fails to decode raises.\<close>

fun decode_all :: "('img, 'pb, 'vec) env \<Rightarrow> pyval list \<Rightarrow> exn + 'img list" where
  "decode_all env [] = Inr []"
| "decode_all env (x # xs) =
     (case decode_image env x of
        Inl e \<Rightarrow> Inl e
      | Inr img \<Rightarrow> (case decode_all env xs of Inl e \<Rightarrow> Inl e | Inr imgs \<Rightarrow> Inr (img # imgs)))"

subsection \<open>The batch plan\<close>

text \<open>\<^verbatim>\<open>batch_size = 4 if input_type == "text" else 1\<close> (line 138).\<close>

definition batch_size :: "string \<Rightarrow> nat" where
  "batch_size input_type = (if input_type = ''text'' then 4 else 1)"

text \<open>\<^verbatim>\<open>for i in range(i0, len(inputs_data), bs): inputs_data[i:i + bs]\<close> (lines 141
  and 142), as the list of the slices taken. Python's \<^verbatim>\<open>range\<close> rejects a step of 0;
  \<open>batch_size\<close> is 4 or 1, so that branch is never taken by the endpoint.\<close>

function batches_from :: "nat \<Rightarrow> nat \<Rightarrow> 'a list \<Rightarrow> 'a list list" where
  "batches_from bs i xs =
     (if bs = 0 \<or> length xs \<le> i then []
      else take bs (drop i xs) # batches_from bs (i + bs) xs)"
  by pat_completeness auto
termination
  by (relation "measure (\<lambda>(bs, i, xs). length xs - i)") auto

declare batches_from.simps [simp del]

definition plan_batches :: "string \<Rightarrow> 'a list \<Rightarrow> 'a list list" where
  "plan_batches input_type inputs = batches_from (batch_size input_type) 0 inputs"

subsection \<open>The item-by-item fallback (lines 181 to 200)\<close>

text \<open>\<^verbatim>\<open>"out of memory" in str(e)\<close>: a substring test.\<close>

fun str_contains :: "string \<Rightarrow> string \<Rightarrow> bool" where
  "str_contains sub [] = (sub = [])"
| "str_contains sub (c # cs) = (prefix sub (c # cs) \<or> str_contains sub cs)"

text \<open>The body of the inner \<^verbatim>\<open>try\<close> (lines 183 to 196) for one item: the exception it
  raises, or the vectors it appends; with the trace. The reclamation of line 196 is
  the last statement of the \<^verbatim>\<open>try\<close> body, so it is reached only when nothing before it
  raised.\<close>

definition single_attempt ::
  "('img, 'pb, 'vec) env \<Rightarrow> string \<Rightarrow> pyval \<Rightarrow> trace \<Rightarrow> (exn + 'vec list) \<times> trace" where
  "single_attempt env input_type single_item tr =
     (if input_type = ''image'' then
        (case decode_image env single_item of
           Inl e \<Rightarrow> (Inl e, tr)
         | Inr img \<Rightarrow>
             (case process_images env tr [img] of
                Inl e \<Rightarrow> (Inl e, tr @ [ProcessorCall])
              | Inr single_processed \<Rightarrow>
                  (case run_model env (tr @ [ProcessorCall]) single_processed of
                     Inl e \<Rightarrow> (Inl e, tr @ [ProcessorCall, ModelCall])
                   | Inr vs \<Rightarrow> (Inr vs, tr @ [ProcessorCall, ModelCall, Reclaim]))))
      else
        (case process_queries env tr [single_item] of
           Inl e \<Rightarrow> (Inl e, tr @ [ProcessorCall])
         | Inr single_processed \<Rightarrow>
             (case run_model env (tr @ [ProcessorCall]) single_processed of
                Inl e \<Rightarrow> (Inl e, tr @ [ProcessorCall, ModelCall])
              | Inr vs \<Rightarrow> (Inr vs, tr @ [ProcessorCall, ModelCall, Reclaim]))))"

text \<open>The loop of line 181: \<^verbatim>\<open>except Exception\<close> (line 198) catches whatever the attempt
  raised and goes on with the next item.\<close>

fun fallback ::
  "('img, 'pb, 'vec) env \<Rightarrow> string \<Rightarrow> pyval list \<Rightarrow> 'vec list \<Rightarrow> trace \<Rightarrow> 'vec list \<times> trace" where
  "fallback env input_type [] acc tr = (acc, tr)"
| "fallback env input_type (x # xs) acc tr =
     (case single_attempt env input_type x tr of
        (Inr vs, tr') \<Rightarrow> fallback env input_type xs (acc @ vs) tr'
      | (Inl e, tr') \<Rightarrow> fallback env input_type xs acc tr')"

subsection \<open>One batch (lines 142 to 204)\<close>

text \<open>Lines 158 to 204: inference on the processed batch, with the handler of
  \<^verbatim>\<open>RuntimeError\<close>.\<close>

definition infer_batch ::
  "('img, 'pb, 'vec) env \<Rightarrow> string \<Rightarrow> pyval list \<Rightarrow> 'pb \<Rightarrow> 'vec list \<Rightarrow> trace
     \<Rightarrow> 'vec flow \<times> trace" where
  "infer_batch env input_type batch processed_batch acc tr =
     (if \<not> truthy env processed_batch then (Next acc, tr)
      else
        (case run_model env tr processed_batch of
           Inr vs \<Rightarrow> (Next (acc @ vs), tr @ [ModelCall, Reclaim])
         | Inl e \<Rightarrow>
             (case e of
                RuntimeError m \<Rightarrow>
                  (if str_contains ''out of memory'' m then
                     (if length batch > 1 then
                        (case fallback env input_type batch acc (tr @ [ModelCall, Reclaim]) of
                           (acc', tr') \<Rightarrow> (Next acc', tr'))
                      else (Raise e, tr @ [ModelCall, Reclaim]))
                   else (Raise e, tr @ [ModelCall]))
              | _ \<Rightarrow> (Raise e, tr @ [ModelCall]))))"

text \<open>Lines 147 to 156: decoding or validation, then the processor. The result is the
  processed batch, or the way the iteration ends without one: an exception, a
  \<^verbatim>\<open>return\<close> of an error response, or the \<^verbatim>\<open>continue\<close> of line 149.\<close>

definition encode_batch ::
  "('img, 'pb, 'vec) env \<Rightarrow> string \<Rightarrow> pyval list \<Rightarrow> 'vec list \<Rightarrow> trace
     \<Rightarrow> ('vec flow + 'pb) \<times> trace" where
  "encode_batch env input_type batch acc tr =
     (if input_type = ''image'' then
        (case decode_all env batch of
           Inl e \<Rightarrow> (Inl (Raise e), tr)
         | Inr pil_images \<Rightarrow>
             (if pil_images = [] then (Inl (Next acc), tr)
              else
                (case process_images env tr pil_images of
                   Inl e \<Rightarrow> (Inl (Raise e), tr @ [ProcessorCall])
                 | Inr processed_batch \<Rightarrow> (Inr processed_batch, tr @ [ProcessorCall]))))
      else if input_type = ''text'' then
        (if \<not> list_all is_str batch then
           (Inl (Return (ErrorResponse ''Invalid text inputs, not all are strings'' 400)), tr)
         else
           (case process_queries env tr batch of
              Inl e \<Rightarrow> (Inl (Raise e), tr @ [ProcessorCall])
            | Inr processed_batch \<Rightarrow> (Inr processed_batch, tr @ [ProcessorCall])))
      else (Inl (Return (ErrorResponse ''Invalid input_type'' 400)), tr))"

text \<open>The body of the batch loop, lines 142 to 204.\<close>

definition run_batch ::
  "('img, 'pb, 'vec) env \<Rightarrow> string \<Rightarrow> pyval list \<Rightarrow> 'vec list \<Rightarrow> trace \<Rightarrow> 'vec flow \<times> trace" where
  "run_batch env input_type batch acc tr =
     (case encode_batch env input_type batch acc tr of
        (Inl fl, tr') \<Rightarrow> (fl, tr')
      | (Inr processed_batch, tr') \<Rightarrow> infer_batch env input_type batch processed_batch acc tr')"

subsection \<open>The endpoint\<close>

text \<open>The \<^verbatim>\<open>for\<close> loop of line 141 over the planned batches: a \<^verbatim>\<open>raise\<close> or a
  \<^verbatim>\<open>return\<close> leaves it.\<close>

fun process_batches ::
  "('img, 'pb, 'vec) env \<Rightarrow> string \<Rightarrow> pyval list list \<Rightarrow> 'vec list \<Rightarrow> trace
     \<Rightarrow> 'vec flow \<times> trace" where
  "process_batches env input_type [] acc tr = (Next acc, tr)"
| "process_batches env input_type (b # bs) acc tr =
     (case run_batch env input_type b acc tr of
        (Next acc', tr') \<Rightarrow> process_batches env input_type bs acc' tr'
      | (Raise e, tr') \<Rightarrow> (Raise e, tr')
      | (Return r, tr') \<Rightarrow> (Return r, tr'))"

text \<open>Lines 206 to 217: the two outer handlers, the final reclamation, the success
  response.\<close>

fun finish :: "'vec flow \<times> trace \<Rightarrow> 'vec response \<times> trace" where
  "finish (Return r, tr) = (r, tr)"
| "finish (Raise (ValueError m), tr) =
     (ErrorResponse (''Input processing error: '' @ m) 400, tr)"
| "finish (Raise e, tr) =
     (ErrorResponse ''Internal server error during embedding'' 500, tr @ [Reclaim])"
| "finish (Next acc, tr) = (Embeddings acc, tr @ [Reclaim])"

definition generate_embeddings_endpoint ::
  "('img, 'pb, 'vec) env \<Rightarrow> string \<Rightarrow> pyval list \<Rightarrow> 'vec response \<times> trace" where
  "generate_embeddings_endpoint env input_type inputs_data =
     (if inputs_data = [] then (Embeddings [], [])
      else finish (process_batches env input_type (plan_batches input_type inputs_data) [] []))"

subsection \<open>Notions used to state the properties\<close>

text \<open>The outcomes of the singleton attempts of a fallback, in the order in which the
  loop of line 181 makes them: each attempt starts from the trace the previous one
  left.\<close>

fun attempts ::
  "('img, 'pb, 'vec) env \<Rightarrow> string \<Rightarrow> pyval list \<Rightarrow> trace \<Rightarrow> (exn + 'vec list) list" where
  "attempts env input_type [] tr = []"
| "attempts env input_type (x # xs) tr =
     (case single_attempt env input_type x tr of
        (r, tr') \<Rightarrow> r # attempts env input_type xs tr')"

text \<open>What an attempt leaves in the result: its vectors, or nothing when it raised.\<close>

fun kept :: "exn + 'vec list \<Rightarrow> 'vec list" where
  "kept (Inr vs) = vs"
| "kept (Inl e) = []"

text \<open>\<open>d\<close> is what the item \<open>x\<close> may contribute in a fallback: nothing, or the vectors
  that a singleton attempt on \<open>x\<close> returned.\<close>

definition item_yield ::
  "('img, 'pb, 'vec) env \<Rightarrow> string \<Rightarrow> pyval \<Rightarrow> 'vec list \<Rightarrow> bool" where
  "item_yield env input_type x d \<longleftrightarrow>
     d = [] \<or> (\<exists>tr tr'. single_attempt env input_type x tr = (Inr d, tr'))"

text \<open>\<open>c\<close> is what the batch \<open>b\<close> may contribute: the vectors that the model returned
  for the processed batch as a whole, or the contributions of its items, one after the
  other in the order of the batch.\<close>

definition batch_yield ::
  "('img, 'pb, 'vec) env \<Rightarrow> string \<Rightarrow> pyval list \<Rightarrow> 'vec list \<Rightarrow> bool" where
  "batch_yield env input_type b c \<longleftrightarrow>
     (\<exists>acc tr pb tr'. encode_batch env input_type b acc tr = (Inr pb, tr')
         \<and> run_model env tr' pb = Inr c)
     \<or> (\<exists>ds. list_all2 (item_yield env input_type) b ds \<and> c = concat ds)"

subsection \<open>A concrete environment\<close>

text \<open>An environment to run the endpoint on: images are their base64 text, except
  \<open>''bad''\<close>, which does not decode; a processed batch is the list of its items; the
  vector of an item is the item itself, so that a result shows where it came from.
  The model fails, with an error that is not an out-of-memory error, on a batch that
  holds \<open>''crash''\<close>; it runs out of memory on any other batch that holds \<open>''big''\<close>,
  also on \<open>''big''\<close> alone.\<close>

definition demo_env :: "(string, pyval list, pyval) env" where
  "demo_env =
     \<lparr> b64_open = (\<lambda>s. if s = ''bad'' then Inl ''Incorrect padding'' else Inr s),
       process_images = (\<lambda>tr imgs. Inr (map PStr imgs)),
       process_queries = (\<lambda>tr items. Inr items),
       truthy = (\<lambda>pb. pb \<noteq> []),
       run_model = (\<lambda>tr pb.
          if PStr ''crash'' \<in> set pb then Inl (RuntimeError ''device-side assert triggered'')
          else if PStr ''big'' \<in> set pb then Inl (RuntimeError ''CUDA out of memory.'')
          else Inr pb) \<rparr>"

text \<open>A second environment, in which moving a processed text batch of several items to
  the device runs out of memory, while a single item fits and the model never fails.\<close>

definition tight_env :: "(string, pyval list, pyval) env" where
  "tight_env =
     \<lparr> b64_open = (\<lambda>s. Inr s),
       process_images = (\<lambda>tr imgs. Inr (map PStr imgs)),
       process_queries = (\<lambda>tr items.
          if length items > 1 then Inl (RuntimeError ''CUDA out of memory.'') else Inr items),
       truthy = (\<lambda>pb. pb \<noteq> []),
       run_model = (\<lambda>tr pb. Inr pb) \<rparr>"

section \<open>The batch plan\<close>

lemma concat_batches_from: "0 < bs \<Longrightarrow> concat (batches_from bs i xs) = drop i xs"
proof (induction bs i xs rule: batches_from.induct)
  case (1 bs i xs)
  show ?case
  proof (cases "length xs \<le> i")
    case True
    then show ?thesis by (simp add: batches_from.simps [of bs i xs])
  next
    case False
    with 1 have "concat (batches_from bs (i + bs) xs) = drop (i + bs) xs" by simp
    moreover have "take bs (drop i xs) @ drop bs (drop i xs) = drop i xs"
      by (rule append_take_drop_id)
    ultimately show ?thesis using False 1(2)
      by (simp add: batches_from.simps [of bs i xs] ac_simps)
  qed
qed

lemma length_batches_from:
  "b \<in> set (batches_from bs i xs) \<Longrightarrow> 1 \<le> length b \<and> length b \<le> bs"
proof (induction bs i xs rule: batches_from.induct)
  case (1 bs i xs)
  show ?case
  proof (cases "bs = 0 \<or> length xs \<le> i")
    case True
    with 1(2) show ?thesis by (simp add: batches_from.simps [of bs i xs])
  next
    case False
    with 1(2) have "b = take bs (drop i xs) \<or> b \<in> set (batches_from bs (i + bs) xs)"
      by (simp add: batches_from.simps [of bs i xs])
    then show ?thesis
    proof
      assume "b = take bs (drop i xs)"
      with False show ?thesis by auto
    next
      assume "b \<in> set (batches_from bs (i + bs) xs)"
      with 1(1) False show ?thesis by simp
    qed
  qed
qed

lemma nth_batches_from:
  "k < length (batches_from bs i xs) \<Longrightarrow>
   batches_from bs i xs ! k = take bs (drop (i + k * bs) xs)"
proof (induction bs i xs arbitrary: k rule: batches_from.induct)
  case (1 bs i xs)
  show ?case
  proof (cases "bs = 0 \<or> length xs \<le> i")
    case True
    with 1(2) show ?thesis by (simp add: batches_from.simps [of bs i xs])
  next
    case False
    then have eq: "batches_from bs i xs = take bs (drop i xs) # batches_from bs (i + bs) xs"
      by (simp add: batches_from.simps [of bs i xs])
    show ?thesis
    proof (cases k)
      case 0
      with eq show ?thesis by simp
    next
      case (Suc j)
      with 1(2) eq have "j < length (batches_from bs (i + bs) xs)" by simp
      with 1(1) False have "batches_from bs (i + bs) xs ! j = take bs (drop (i + bs + j * bs) xs)"
        by simp
      with eq Suc show ?thesis by (simp add: ac_simps)
    qed
  qed
qed

lemma plan_batches_Cons:
  "plan_batches it (x # xs)
     = take (batch_size it) (x # xs) # batches_from (batch_size it) (batch_size it) (x # xs)"
  by (simp add: plan_batches_def batch_size_def batches_from.simps [of _ 0])

text \<open>
  \<^bold>\<open>C6.\<close> The planned batches are contiguous windows of the input list, of at most 4
  items for text and of exactly 1 item for image; concatenated in order they give back
  the input list, so they partition it without gap or overlap. The window number \<open>k\<close>
  is the slice that starts at \<open>k * batch_size\<close>. The five-item text request plans the two
  batches \<open>[a, b, c, d]\<close> and \<open>[e]\<close>.
\<close>

theorem plan_batches_partition:
  "concat (plan_batches input_type inputs) = inputs
   \<and> (\<forall>b \<in> set (plan_batches input_type inputs).
         1 \<le> length b \<and> length b \<le> (if input_type = ''text'' then 4 else 1))
   \<and> (\<forall>k < length (plan_batches input_type inputs).
         plan_batches input_type inputs ! k
           = take (batch_size input_type) (drop (k * batch_size input_type) inputs))
   \<and> plan_batches ''text'' [PStr ''a'', PStr ''b'', PStr ''c'', PStr ''d'', PStr ''e'']
       = [[PStr ''a'', PStr ''b'', PStr ''c'', PStr ''d''], [PStr ''e'']]"
proof (intro conjI ballI allI impI)
  show "concat (plan_batches input_type inputs) = inputs"
    by (simp add: plan_batches_def batch_size_def concat_batches_from)
next
  fix b assume "b \<in> set (plan_batches input_type inputs)"
  then have "1 \<le> length b \<and> length b \<le> batch_size input_type"
    unfolding plan_batches_def by (rule length_batches_from)
  then show "1 \<le> length b" and "length b \<le> (if input_type = ''text'' then 4 else 1)"
    by (simp_all add: batch_size_def)
next
  fix k assume "k < length (plan_batches input_type inputs)"
  then show "plan_batches input_type inputs ! k
           = take (batch_size input_type) (drop (k * batch_size input_type) inputs)"
    unfolding plan_batches_def
    using nth_batches_from [of k "batch_size input_type" 0 inputs] by simp
next
  show "plan_batches ''text'' [PStr ''a'', PStr ''b'', PStr ''c'', PStr ''d'', PStr ''e'']
       = [[PStr ''a'', PStr ''b'', PStr ''c'', PStr ''d''], [PStr ''e'']]"
    by (simp add: plan_batches_def batch_size_def batches_from.simps)
qed

text \<open>The theorem at an image request of three items: three batches of one item each,
  the second of which is the slice that starts at index 1.\<close>

theorem plan_batches_partition_witness:
  "concat (plan_batches ''image'' [PStr ''x'', PStr ''y'', PStr ''z''])
     = [PStr ''x'', PStr ''y'', PStr ''z'']
   \<and> [PStr ''y''] \<in> set (plan_batches ''image'' [PStr ''x'', PStr ''y'', PStr ''z''])
   \<and> length [PStr ''y''] = 1
   \<and> 1 < length (plan_batches ''image'' [PStr ''x'', PStr ''y'', PStr ''z''])
   \<and> plan_batches ''image'' [PStr ''x'', PStr ''y'', PStr ''z''] ! 1 = [PStr ''y'']"
  using plan_batches_partition [of "''image''" "[PStr ''x'', PStr ''y'', PStr ''z'']"]
  by (simp add: plan_batches_def batch_size_def batches_from.simps)

section \<open>Validation of the request\<close>

text \<open>
  \<^bold>\<open>C9.\<close> A request whose list of inputs is empty returns \<open>{"embeddings": []}\<close>
  whatever its input type is, before anything else is looked at: no call is recorded.
\<close>

theorem empty_inputs_short_circuit:
  "generate_embeddings_endpoint env input_type [] = (Embeddings [], [])"
  by (simp add: generate_embeddings_endpoint_def)

text \<open>
  \<^bold>\<open>C8\<close>, as stated, fails on an empty list of inputs: the test of line 126 comes
  first, and the request succeeds although its input type is not recognised.
\<close>

theorem unknown_type_empty_inputs_succeeds:
  "fst (generate_embeddings_endpoint demo_env ''audio'' []) = Embeddings []"
  by (simp add: generate_embeddings_endpoint_def)

text \<open>
  \<^bold>\<open>C8\<close>, amended. A request with at least one input whose input type is neither
  \<open>text\<close> nor \<open>image\<close> is answered with the error \<open>Invalid input_type\<close> and status 400,
  and neither the processor nor the model is called (nor the reclaimer): the trace is
  empty.
\<close>

theorem unknown_type_rejected:
  assumes "input_type \<noteq> ''text''" and "input_type \<noteq> ''image''" and "inputs \<noteq> []"
  shows "generate_embeddings_endpoint env input_type inputs
           = (ErrorResponse ''Invalid input_type'' 400, [])"
proof -
  from assms(3) obtain x xs where "inputs = x # xs" by (cases inputs) auto
  with assms(1,2) show ?thesis
    by (simp add: generate_embeddings_endpoint_def plan_batches_Cons run_batch_def encode_batch_def)
qed

theorem unknown_type_rejected_witness:
  "''audio'' \<noteq> ''text'' \<and> ''audio'' \<noteq> ''image'' \<and> [PStr ''a''] \<noteq> []
   \<and> generate_embeddings_endpoint demo_env ''audio'' [PStr ''a'']
       = (ErrorResponse ''Invalid input_type'' 400, [])"
  using unknown_type_rejected [where input_type = "''audio''" and inputs = "[PStr ''a'']"
      and env = demo_env]
  by simp

section \<open>The item-by-item fallback\<close>



lemma fst_fallback_attempts:
  "fst (fallback env it xs acc tr) = acc @ concat (map kept (attempts env it xs tr))"
proof (induction xs arbitrary: acc tr)
  case Nil
  show ?case by simp
next
  case (Cons y ys)
  show ?case
  proof (cases "single_attempt env it y tr")
    case (Pair r tr1)
    then show ?thesis using Cons.IH by (cases r) simp_all
  qed
qed

lemma length_attempts: "length (attempts env it xs tr) = length xs"
  by (induction xs arbitrary: tr) (simp_all split: prod.splits)

lemma nth_attempts:
  "i < length xs \<Longrightarrow>
   attempts env it xs tr ! i
     = fst (single_attempt env it (xs ! i) (snd (fallback env it (take i xs) acc tr)))"
proof (induction xs arbitrary: i tr acc)
  case Nil
  then show ?case by simp
next
  case (Cons y ys)
  show ?case
  proof (cases i)
    case 0
    then show ?thesis by (simp split: prod.splits)
  next
    case (Suc j)
    obtain r tr1 where sa: "single_attempt env it y tr = (r, tr1)"
      by (cases "single_attempt env it y tr")
    from Suc Cons.prems have "j < length ys" by simp
    then have "attempts env it ys tr1 ! j
        = fst (single_attempt env it (ys ! j)
                (snd (fallback env it (take j ys) (acc @ kept r) tr1)))"
      by (rule Cons.IH)
    with Suc sa show ?thesis by (cases r) simp_all
  qed
qed

lemma single_attempt_trace:
  "single_attempt env it x tr = (r, tr') \<Longrightarrow> prefix tr tr'"
  by (auto simp: single_attempt_def split: if_splits sum.splits)

lemma fallback_trace: "prefix tr (snd (fallback env it xs acc tr))"
proof (induction xs arbitrary: acc tr)
  case Nil
  show ?case by simp
next
  case (Cons y ys)
  obtain r tr1 where sa: "single_attempt env it y tr = (r, tr1)"
    by (cases "single_attempt env it y tr")
  then have "prefix tr tr1" by (rule single_attempt_trace)
  moreover have "prefix tr1 (snd (fallback env it ys (acc @ kept r) tr1))" by (rule Cons.IH)
  ultimately have "prefix tr (snd (fallback env it ys (acc @ kept r) tr1))"
    by (rule prefix_order.trans)
  with sa show ?case by (cases r) simp_all
qed

text \<open>What the handler of line 174 makes of an out-of-memory error of the model.\<close>

lemma infer_batch_oom:
  assumes "truthy env pb"
    and "run_model env tr pb = Inl (RuntimeError m)"
    and "str_contains ''out of memory'' m"
  shows "infer_batch env it batch pb acc tr =
           (if length batch > 1 then
              (Next (fst (fallback env it batch acc (tr @ [ModelCall, Reclaim]))),
               snd (fallback env it batch acc (tr @ [ModelCall, Reclaim])))
            else (Raise (RuntimeError m), tr @ [ModelCall, Reclaim]))"
  using assms by (simp add: infer_batch_def split: prod.splits)

text \<open>
  \<^bold>\<open>C1\<close>, as stated, fails when the out-of-memory error of a batch is raised by the
  processor step (lines 150 and 154, the processor call moved to the device), which
  stands before the inner \<^verbatim>\<open>try\<close> of line 159. In the text request \<open>[a, b]\<close> that
  step runs out of memory on the batch of two, although each item alone is processed
  without error: there is no fallback, the error reaches the handler of line 209, and
  the request is answered with status 500.
\<close>

theorem processor_oom_on_batch_is_fatal:
  "process_queries tight_env [] [PStr ''a'', PStr ''b'']
     = Inl (RuntimeError ''CUDA out of memory.'')
   \<and> str_contains ''out of memory'' ''CUDA out of memory.''
   \<and> single_attempt tight_env ''text'' (PStr ''a'') []
       = (Inr [PStr ''a''], [ProcessorCall, ModelCall, Reclaim])
   \<and> single_attempt tight_env ''text'' (PStr ''b'') []
       = (Inr [PStr ''b''], [ProcessorCall, ModelCall, Reclaim])
   \<and> generate_embeddings_endpoint tight_env ''text'' [PStr ''a'', PStr ''b'']
       = (ErrorResponse ''Internal server error during embedding'' 500,
          [ProcessorCall, Reclaim])"
  by (simp add: generate_embeddings_endpoint_def plan_batches_def batch_size_def
      batches_from.simps run_batch_def encode_batch_def single_attempt_def tight_env_def)

text \<open>
  \<^bold>\<open>C1\<close>, amended. Let the loop be at a batch whose processor step succeeded and
  whose model call raises a \<^verbatim>\<open>RuntimeError\<close> that mentions \<open>out of memory\<close>. The model
  call is followed by a reclamation. If the batch has more than one item, one singleton
  attempt is then made for each item, in order, each from the trace the previous one
  left; the result gains the vectors of the attempts that succeeded and nothing for
  those that raised; the loop goes on with the remaining batches, and when the batch is
  the last one the request is answered with the embeddings gathered so, after the final
  reclamation. Otherwise the error leaves the loop, and the endpoint answers with
  status 500.
\<close>

theorem model_oom_batch_falls_back_to_singletons:
  assumes "encode_batch env it batch acc tr = (Inr pb, tr1)"
    and "truthy env pb"
    and "run_model env tr1 pb = Inl (RuntimeError m)"
    and "str_contains ''out of memory'' m"
  shows "(if length batch > 1 then
            process_batches env it (batch # rest) acc tr
              = process_batches env it rest
                  (acc @ concat (map kept (attempts env it batch (tr1 @ [ModelCall, Reclaim]))))
                  (snd (fallback env it batch acc (tr1 @ [ModelCall, Reclaim])))
            \<and> finish (process_batches env it [batch] acc tr)
              = (Embeddings
                   (acc @ concat (map kept (attempts env it batch (tr1 @ [ModelCall, Reclaim])))),
                 snd (fallback env it batch acc (tr1 @ [ModelCall, Reclaim])) @ [Reclaim])
            \<and> length (attempts env it batch (tr1 @ [ModelCall, Reclaim])) = length batch
            \<and> (\<forall>i < length batch.
                  attempts env it batch (tr1 @ [ModelCall, Reclaim]) ! i
                    = fst (single_attempt env it (batch ! i)
                        (snd (fallback env it (take i batch) acc (tr1 @ [ModelCall, Reclaim])))))
            \<and> prefix (tr1 @ [ModelCall, Reclaim])
                 (snd (fallback env it batch acc (tr1 @ [ModelCall, Reclaim])))
          else
            process_batches env it (batch # rest) acc tr
              = (Raise (RuntimeError m), tr1 @ [ModelCall, Reclaim])
            \<and> finish (process_batches env it (batch # rest) acc tr)
              = (ErrorResponse ''Internal server error during embedding'' 500,
                 tr1 @ [ModelCall, Reclaim, Reclaim]))"
proof -
  let ?tr0 = "tr1 @ [ModelCall, Reclaim]"
  have rb: "run_batch env it batch acc tr = infer_batch env it batch pb acc tr1"
    using assms(1) by (simp add: run_batch_def)
  show ?thesis
  proof (cases "length batch > 1")
    case True
    with assms(2-4) have "infer_batch env it batch pb acc tr1
        = (Next (fst (fallback env it batch acc ?tr0)), snd (fallback env it batch acc ?tr0))"
      by (simp add: infer_batch_oom)
    with rb have "\<And>bs. process_batches env it (batch # bs) acc tr
        = process_batches env it bs (fst (fallback env it batch acc ?tr0))
            (snd (fallback env it batch acc ?tr0))"
      by simp
    then have loop: "\<And>bs. process_batches env it (batch # bs) acc tr
        = process_batches env it bs (acc @ concat (map kept (attempts env it batch ?tr0)))
            (snd (fallback env it batch acc ?tr0))"
      by (simp only: fst_fallback_attempts)
    have "process_batches env it [batch] acc tr
              = (Next (acc @ concat (map kept (attempts env it batch ?tr0))),
                 snd (fallback env it batch acc ?tr0))"
      using loop [of "[]"] by simp
    then have last: "finish (process_batches env it [batch] acc tr)
              = (Embeddings (acc @ concat (map kept (attempts env it batch ?tr0))),
                 snd (fallback env it batch acc ?tr0) @ [Reclaim])"
      by simp
    have each: "\<forall>i < length batch.
                  attempts env it batch ?tr0 ! i
                    = fst (single_attempt env it (batch ! i)
                        (snd (fallback env it (take i batch) acc ?tr0)))"
      using nth_attempts by blast
    from True loop [of rest] last each show ?thesis
      using length_attempts [of env it batch ?tr0] fallback_trace [of ?tr0 env it batch acc]
      by simp
  next
    case False
    with assms(2-4) have "infer_batch env it batch pb acc tr1 = (Raise (RuntimeError m), ?tr0)"
      by (simp add: infer_batch_oom)
    with rb False show ?thesis by simp
  qed
qed

text \<open>The theorem at a text batch of four items whose second item does not fit even
  alone, as the last batch of a request and followed by one more batch; and at an
  image batch, which has one item.\<close>

theorem model_oom_batch_falls_back_to_singletons_witness:
  "encode_batch demo_env ''text'' [PStr ''a'', PStr ''big'', PStr ''c'', PStr ''d''] [] []
     = (Inr [PStr ''a'', PStr ''big'', PStr ''c'', PStr ''d''], [ProcessorCall])
   \<and> truthy demo_env [PStr ''a'', PStr ''big'', PStr ''c'', PStr ''d'']
   \<and> run_model demo_env [ProcessorCall] [PStr ''a'', PStr ''big'', PStr ''c'', PStr ''d'']
       = Inl (RuntimeError ''CUDA out of memory.'')
   \<and> str_contains ''out of memory'' ''CUDA out of memory.''
   \<and> process_batches demo_env ''text''
         ([PStr ''a'', PStr ''big'', PStr ''c'', PStr ''d''] # [[PStr ''e'']]) [] []
       = (Next [PStr ''a'', PStr ''c'', PStr ''d'', PStr ''e''],
          [ProcessorCall, ModelCall, Reclaim,
           ProcessorCall, ModelCall, Reclaim,
           ProcessorCall, ModelCall,
           ProcessorCall, ModelCall, Reclaim,
           ProcessorCall, ModelCall, Reclaim,
           ProcessorCall, ModelCall, Reclaim])
   \<and> finish (process_batches demo_env ''text''
         [[PStr ''a'', PStr ''big'', PStr ''c'', PStr ''d'']] [] [])
       = (Embeddings [PStr ''a'', PStr ''c'', PStr ''d''],
          [ProcessorCall, ModelCall, Reclaim,
           ProcessorCall, ModelCall, Reclaim,
           ProcessorCall, ModelCall,
           ProcessorCall, ModelCall, Reclaim,
           ProcessorCall, ModelCall, Reclaim,
           Reclaim])
   \<and> attempts demo_env ''text'' [PStr ''a'', PStr ''big'', PStr ''c'', PStr ''d'']
         [ProcessorCall, ModelCall, Reclaim]
       = [Inr [PStr ''a''], Inl (RuntimeError ''CUDA out of memory.''),
          Inr [PStr ''c''], Inr [PStr ''d'']]
   \<and> encode_batch demo_env ''image'' [PStr ''big''] [] [] = (Inr [PStr ''big''], [ProcessorCall])
   \<and> finish (process_batches demo_env ''image'' ([PStr ''big''] # [[PStr ''z'']]) [] [])
       = (ErrorResponse ''Internal server error during embedding'' 500,
          [ProcessorCall, ModelCall, Reclaim, Reclaim])"
proof -
  let ?b = "[PStr ''a'', PStr ''big'', PStr ''c'', PStr ''d'']"
  let ?m = "''CUDA out of memory.''"
  let ?fb = "[ProcessorCall, ModelCall, Reclaim,
           ProcessorCall, ModelCall, Reclaim,
           ProcessorCall, ModelCall,
           ProcessorCall, ModelCall, Reclaim,
           ProcessorCall, ModelCall, Reclaim]"
  have h1: "encode_batch demo_env ''text'' ?b [] [] = (Inr ?b, [ProcessorCall])"
    by (simp add: encode_batch_def demo_env_def)
  have h2: "truthy demo_env ?b" by (simp add: demo_env_def)
  have h3: "run_model demo_env [ProcessorCall] ?b = Inl (RuntimeError ?m)"
    by (simp add: demo_env_def)
  have h4: "str_contains ''out of memory'' ?m" by simp
  have at: "attempts demo_env ''text'' ?b [ProcessorCall, ModelCall, Reclaim]
       = [Inr [PStr ''a''], Inl (RuntimeError ?m), Inr [PStr ''c''], Inr [PStr ''d'']]"
    by (simp add: single_attempt_def demo_env_def)
  have fb: "snd (fallback demo_env ''text'' ?b [] [ProcessorCall, ModelCall, Reclaim]) = ?fb"
    by (simp add: single_attempt_def demo_env_def)
  have rest: "process_batches demo_env ''text'' [[PStr ''e'']]
       [PStr ''a'', PStr ''c'', PStr ''d''] ?fb
     = (Next [PStr ''a'', PStr ''c'', PStr ''d'', PStr ''e''],
        ?fb @ [ProcessorCall, ModelCall, Reclaim])"
    by (simp add: run_batch_def encode_batch_def infer_batch_def demo_env_def)
  note inst = model_oom_batch_falls_back_to_singletons [OF h1 h2 h3 h4, of "[[PStr ''e'']]"]
  have text_case: "process_batches demo_env ''text'' (?b # [[PStr ''e'']]) [] []
       = (Next [PStr ''a'', PStr ''c'', PStr ''d'', PStr ''e''],
          ?fb @ [ProcessorCall, ModelCall, Reclaim])"
    using inst at fb rest by simp
  have last_case: "finish (process_batches demo_env ''text'' [?b] [] [])
       = (Embeddings [PStr ''a'', PStr ''c'', PStr ''d''], ?fb @ [Reclaim])"
    using inst at fb by simp
  have g1: "encode_batch demo_env ''image'' [PStr ''big''] [] [] = (Inr [PStr ''big''], [ProcessorCall])"
    by (simp add: encode_batch_def demo_env_def)
  have g2: "truthy demo_env [PStr ''big'']" by (simp add: demo_env_def)
  have g3: "run_model demo_env [ProcessorCall] [PStr ''big''] = Inl (RuntimeError ?m)"
    by (simp add: demo_env_def)
  have image_case: "finish (process_batches demo_env ''image'' ([PStr ''big''] # [[PStr ''z'']]) [] [])
       = (ErrorResponse ''Internal server error during embedding'' 500,
          [ProcessorCall, ModelCall, Reclaim, Reclaim])"
    using model_oom_batch_falls_back_to_singletons [OF g1 g2 g3 h4, of "[[PStr ''z'']]"] by simp
  from h1 h2 h3 h4 text_case last_case at g1 image_case show ?thesis by simp
qed

section \<open>The batch loop and the outer handlers\<close>

lemma process_batches_append:
  "process_batches env it (bs1 @ bs2) acc tr =
     (case process_batches env it bs1 acc tr of
        (Next acc', tr') \<Rightarrow> process_batches env it bs2 acc' tr'
      | (Raise e, tr') \<Rightarrow> (Raise e, tr')
      | (Return r, tr') \<Rightarrow> (Return r, tr'))"
proof (induction bs1 arbitrary: acc tr)
  case Nil
  show ?case by simp
next
  case (Cons b bs)
  show ?case
  proof (cases "run_batch env it b acc tr")
    case (Pair fl tr1)
    then show ?thesis using Cons.IH by (cases fl) simp_all
  qed
qed

text \<open>The only responses returned from inside the loop are the two 400 answers of
  lines 153 and 156.\<close>

lemma infer_batch_Return: "infer_batch env it b pb acc tr \<noteq> (Return r, tr')"
  by (simp add: infer_batch_def split: sum.splits exn.splits prod.splits)

lemma encode_batch_Return:
  "encode_batch env it b acc tr = (Inl (Return r), tr') \<Longrightarrow> \<exists>m. r = ErrorResponse m 400"
  by (auto simp: encode_batch_def split: if_splits sum.splits)

lemma run_batch_Return:
  assumes "run_batch env it b acc tr = (Return r, tr')"
  shows "\<exists>m. r = ErrorResponse m 400"
proof -
  obtain res tr1 where eb: "encode_batch env it b acc tr = (res, tr1)"
    by (cases "encode_batch env it b acc tr")
  show ?thesis
  proof (cases res)
    case (Inl fl)
    with assms eb have "encode_batch env it b acc tr = (Inl (Return r), tr')"
      by (simp add: run_batch_def)
    then show ?thesis by (rule encode_batch_Return)
  next
    case (Inr pb)
    with assms eb have "infer_batch env it b pb acc tr1 = (Return r, tr')"
      by (simp add: run_batch_def)
    then show ?thesis by (simp add: infer_batch_Return)
  qed
qed

lemma process_batches_Return:
  "process_batches env it bs acc tr = (Return r, tr') \<Longrightarrow> \<exists>m. r = ErrorResponse m 400"
proof (induction bs arbitrary: acc tr)
  case Nil
  then show ?case by simp
next
  case (Cons b bs)
  obtain fl tr1 where rb: "run_batch env it b acc tr = (fl, tr1)"
    by (cases "run_batch env it b acc tr")
  show ?case
  proof (cases fl)
    case (Raise e)
    with rb Cons.prems show ?thesis by simp
  next
    case (Return r1)
    with rb Cons.prems have "run_batch env it b acc tr = (Return r, tr')" by simp
    then show ?thesis by (rule run_batch_Return)
  next
    case (Next acc1)
    with rb Cons.prems have "process_batches env it bs acc1 tr1 = (Return r, tr')" by simp
    then show ?thesis by (rule Cons.IH)
  qed
qed

lemma finish_not_Next:
  assumes "\<forall>a. fl \<noteq> Next a" and "\<forall>r. fl = Return r \<longrightarrow> (\<exists>m. r = ErrorResponse m 400)"
  shows "\<exists>m c. fst (finish (fl, tr)) = ErrorResponse m c \<and> (c = 400 \<or> c = 500)"
proof (cases fl)
  case (Raise e)
  then show ?thesis by (cases e) simp_all
next
  case (Return r)
  with assms(2) show ?thesis by auto
next
  case (Next a)
  with assms(1) show ?thesis by simp
qed

text \<open>A batch on which the loop body never reaches its end stops every loop that
  holds it.\<close>

lemma process_batches_blocked:
  assumes "b \<in> set bs"
    and "\<And>acc tr a tr'. run_batch env it b acc tr \<noteq> (Next a, tr')"
  shows "process_batches env it bs acc tr \<noteq> (Next a, tr')"
  using assms(1)
proof (induction bs arbitrary: acc tr)
  case Nil
  then show ?case by simp
next
  case (Cons b' bs)
  obtain fl tr1 where rb: "run_batch env it b' acc tr = (fl, tr1)"
    by (cases "run_batch env it b' acc tr")
  show ?case
  proof (cases fl)
    case (Raise e)
    with rb show ?thesis by simp
  next
    case (Return r)
    with rb show ?thesis by simp
  next
    case (Next acc1)
    with rb assms(2) have "b' \<noteq> b" by auto
    with Cons.prems have "b \<in> set bs" by simp
    then have "process_batches env it bs acc1 tr1 \<noteq> (Next a, tr')" by (rule Cons.IH)
    with rb Next show ?thesis by simp
  qed
qed

lemma plan_batches_nonempty:
  "b \<in> set (plan_batches it inputs) \<Longrightarrow> inputs \<noteq> []"
  by (auto simp: plan_batches_def batches_from.simps [of _ 0 "[]"])

lemma endpoint_blocked:
  assumes "b \<in> set (plan_batches it inputs)"
    and "\<And>acc tr a tr'. run_batch env it b acc tr \<noteq> (Next a, tr')"
  shows "\<exists>m c. fst (generate_embeddings_endpoint env it inputs) = ErrorResponse m c
           \<and> (c = 400 \<or> c = 500)"
proof -
  from assms(1) have ne: "inputs \<noteq> []" by (rule plan_batches_nonempty)
  obtain fl tr1 where pb: "process_batches env it (plan_batches it inputs) [] [] = (fl, tr1)"
    by (cases "process_batches env it (plan_batches it inputs) [] []")
  have "\<forall>a. fl \<noteq> Next a"
  proof (intro allI notI)
    fix a assume "fl = Next a"
    with pb have "process_batches env it (plan_batches it inputs) [] [] = (Next a, tr1)" by simp
    with process_batches_blocked [OF assms] show False by blast
  qed
  moreover from pb have "\<forall>r. fl = Return r \<longrightarrow> (\<exists>m. r = ErrorResponse m 400)"
    by (auto dest: process_batches_Return)
  ultimately have "\<exists>m c. fst (finish (fl, tr1)) = ErrorResponse m c \<and> (c = 400 \<or> c = 500)"
    by (rule finish_not_Next)
  with ne pb show ?thesis by (simp add: generate_embeddings_endpoint_def)
qed

text \<open>The request whose loop has come to the batch \<open>b\<close> with the result \<open>acc\<close> and the
  trace \<open>tr\<close>.\<close>

lemma endpoint_reaches:
  assumes "plan_batches it inputs = pre @ b # post"
    and "process_batches env it pre [] [] = (Next acc, tr)"
  shows "generate_embeddings_endpoint env it inputs
           = finish (case run_batch env it b acc tr of
                       (Next acc', tr') \<Rightarrow> process_batches env it post acc' tr'
                     | (Raise e, tr') \<Rightarrow> (Raise e, tr')
                     | (Return r, tr') \<Rightarrow> (Return r, tr'))"
proof -
  have "b \<in> set (plan_batches it inputs)" by (simp add: assms(1))
  then have ne: "inputs \<noteq> []" by (rule plan_batches_nonempty)
  have "process_batches env it (pre @ b # post) [] [] = process_batches env it (b # post) acc tr"
    using assms(2) by (simp add: process_batches_append)
  with ne assms(1) show ?thesis by (simp add: generate_embeddings_endpoint_def)
qed



section \<open>Out of memory during the fallback\<close>




section \<open>Reclamation\<close>

text \<open>
  \<^bold>\<open>C3.\<close> The code at the text request \<open>[a, big, c]\<close>, whose batch runs out of memory.
  The singleton attempt on \<open>big\<close> raises: its processor call and its model call (the
  seventh and eighth events) are followed at once by the processor call for \<open>c\<close>, with
  no reclamation between them, whereas the attempts on \<open>a\<close> and on \<open>c\<close>, which succeed,
  each end with one. The call of line 196 is inside the \<^verbatim>\<open>try\<close> body and the handler of
  line 198 has none.
\<close>

theorem failed_singleton_attempt_not_reclaimed:
  "generate_embeddings_endpoint demo_env ''text'' [PStr ''a'', PStr ''big'', PStr ''c'']
     = (Embeddings [PStr ''a'', PStr ''c''],
        [ProcessorCall, ModelCall, Reclaim,
         ProcessorCall, ModelCall, Reclaim,
         ProcessorCall, ModelCall,
         ProcessorCall, ModelCall, Reclaim,
         Reclaim])
   \<and> single_attempt demo_env ''text'' (PStr ''big'')
         [ProcessorCall, ModelCall, Reclaim, ProcessorCall, ModelCall, Reclaim]
       = (Inl (RuntimeError ''CUDA out of memory.''),
          [ProcessorCall, ModelCall, Reclaim, ProcessorCall, ModelCall, Reclaim,
           ProcessorCall, ModelCall])"
  by (simp add: generate_embeddings_endpoint_def plan_batches_def batch_size_def
      batches_from.simps run_batch_def encode_batch_def infer_batch_def single_attempt_def
      demo_env_def)

text \<open>
  \<^bold>\<open>C4\<close>, as stated, fails for the failures answered with status 400: an image
  request whose only item does not decode is answered by the handler of line 206,
  which does not call the reclaimer; the trace holds no reclamation at all.
\<close>

theorem bad_input_failure_without_reclaim:
  "generate_embeddings_endpoint demo_env ''image'' [PStr ''bad'']
     = (ErrorResponse
          ''Input processing error: Failed to decode base64 image: Incorrect padding'' 400, [])
   \<and> Reclaim \<notin> set (snd (generate_embeddings_endpoint demo_env ''image'' [PStr ''bad'']))"
  by (simp add: generate_embeddings_endpoint_def plan_batches_def batch_size_def
      batches_from.simps run_batch_def encode_batch_def demo_env_def)

text \<open>
  \<^bold>\<open>C4\<close>, amended. An error response whose status is not 400 has status 500, and
  the last thing done before it is returned is a reclamation (line 211).
\<close>

theorem server_error_reclaims_before_return:
  assumes "generate_embeddings_endpoint env it inputs = (ErrorResponse m c, tr)"
    and "c \<noteq> 400"
  shows "c = 500 \<and> tr \<noteq> [] \<and> last tr = Reclaim"
proof -
  from assms(1) have ne: "inputs \<noteq> []"
    by (auto simp: generate_embeddings_endpoint_def)
  obtain fl tr1 where pb: "process_batches env it (plan_batches it inputs) [] [] = (fl, tr1)"
    by (cases "process_batches env it (plan_batches it inputs) [] []")
  with assms(1) ne have fin: "finish (fl, tr1) = (ErrorResponse m c, tr)"
    by (simp add: generate_embeddings_endpoint_def)
  show ?thesis
  proof (cases fl)
    case (Raise e)
    with fin assms(2) show ?thesis by (cases e) auto
  next
    case (Return r)
    with pb have "\<exists>m'. r = ErrorResponse m' 400" by (simp add: process_batches_Return)
    with Return fin assms(2) show ?thesis by auto
  next
    case (Next acc)
    with fin show ?thesis by simp
  qed
qed

text \<open>The theorem at an image request whose second item does not fit on the device.\<close>

theorem server_error_reclaims_before_return_witness:
  "generate_embeddings_endpoint demo_env ''image'' [PStr ''ok'', PStr ''big'']
     = (ErrorResponse ''Internal server error during embedding'' 500,
        [ProcessorCall, ModelCall, Reclaim, ProcessorCall, ModelCall, Reclaim, Reclaim])
   \<and> (500::nat) \<noteq> 400
   \<and> last [ProcessorCall, ModelCall, Reclaim, ProcessorCall, ModelCall, Reclaim, Reclaim] = Reclaim"
proof -
  have h: "generate_embeddings_endpoint demo_env ''image'' [PStr ''ok'', PStr ''big'']
     = (ErrorResponse ''Internal server error during embedding'' 500,
        [ProcessorCall, ModelCall, Reclaim, ProcessorCall, ModelCall, Reclaim, Reclaim])"
    by (simp add: generate_embeddings_endpoint_def plan_batches_def batch_size_def
      batches_from.simps run_batch_def encode_batch_def infer_batch_def demo_env_def)
  have n: "(500::nat) \<noteq> 400" by simp
  from server_error_reclaims_before_return [OF h n] h n show ?thesis by simp
qed


section \<open>Invalid items\<close>

lemma batches_from_one: "batches_from (Suc 0) i xs = map (\<lambda>y. [y]) (drop i xs)"
proof (induction "Suc 0" i xs rule: batches_from.induct)
  case (1 i xs)
  show ?case
  proof (cases "length xs \<le> i")
    case True
    then show ?thesis by (simp add: batches_from.simps [of "Suc 0" i xs])
  next
    case False
    then have "drop i xs = xs ! i # drop (Suc i) xs" by (simp add: Cons_nth_drop_Suc)
    moreover from False 1
    have "batches_from (Suc 0) (Suc i) xs = map (\<lambda>y. [y]) (drop (Suc i) xs)" by simp
    moreover from False have "take (Suc 0) (drop i xs) = [xs ! i]"
      by (simp add: take_Suc_conv_app_nth)
    ultimately show ?thesis using False
      by (simp add: batches_from.simps [of "Suc 0" i xs])
  qed
qed

lemma plan_batches_image: "plan_batches ''image'' xs = map (\<lambda>y. [y]) xs"
  by (simp add: plan_batches_def batch_size_def batches_from_one)

lemma decode_image_str: "decode_image env (PStr s) = Inl e \<Longrightarrow> \<exists>m. e = ValueError m"
  by (auto split: if_splits option.splits sum.splits)

lemma run_batch_image_undecodable:
  "decode_image env x = Inl e \<Longrightarrow> run_batch env ''image'' [x] acc tr = (Raise e, tr)"
  by (simp add: run_batch_def encode_batch_def)


text \<open>
  \<^bold>\<open>C5\<close>, as stated, fails in its second half. In the image request \<open>[bad, ok]\<close> the
  first item does not decode and the second does. The \<^verbatim>\<open>ValueError\<close> of
  \<^verbatim>\<open>_decode_image\<close> is raised at line 148, outside the inner \<^verbatim>\<open>try\<close>, and reaches the
  handler of line 206: the whole request is answered with status 400, and \<open>ok\<close> is
  never processed (the trace is empty).
\<close>

theorem undecodable_image_fails_whole_request:
  "decode_image demo_env (PStr ''bad'')
     = Inl (ValueError ''Failed to decode base64 image: Incorrect padding'')
   \<and> decode_image demo_env (PStr ''ok'') = Inr ''ok''
   \<and> generate_embeddings_endpoint demo_env ''image'' [PStr ''bad'', PStr ''ok'']
       = (ErrorResponse
            ''Input processing error: Failed to decode base64 image: Incorrect padding'' 400, [])"
  by (simp add: generate_embeddings_endpoint_def plan_batches_def batch_size_def
      batches_from.simps run_batch_def encode_batch_def demo_env_def)

text \<open>
  \<^bold>\<open>C5\<close>, amended. In an image request, a string that fails to decode (a data URI
  without a comma, or a failure of the base64 decoder or of the image library) raises a
  \<^verbatim>\<open>ValueError\<close>, and the failure is that of the whole request: the request never
  returns embeddings, and when the loop reaches the item, that is when the items before
  it were processed without an exception, the answer is the error
  \<open>Input processing error: ...\<close> with status 400 and nothing after the item is
  processed.
\<close>

theorem image_decode_failure_fails_request:
  assumes "inputs = pre @ PStr s # post" and "decode_image env (PStr s) = Inl e"
  shows "(\<exists>m. e = ValueError m
            \<and> (\<forall>acc tr.
                  process_batches env ''image'' (plan_batches ''image'' pre) [] [] = (Next acc, tr)
                  \<longrightarrow> generate_embeddings_endpoint env ''image'' inputs
                        = (ErrorResponse (''Input processing error: '' @ m) 400, tr)))
       \<and> (\<exists>msg c. fst (generate_embeddings_endpoint env ''image'' inputs) = ErrorResponse msg c
            \<and> (c = 400 \<or> c = 500))"
proof (rule conjI)
  from assms(2) obtain m where m: "e = ValueError m" using decode_image_str by blast
  have plan: "plan_batches ''image'' inputs
          = plan_batches ''image'' pre @ [PStr s] # plan_batches ''image'' post"
    by (simp add: assms(1) plan_batches_image)
  have "\<forall>acc tr.
          process_batches env ''image'' (plan_batches ''image'' pre) [] [] = (Next acc, tr)
          \<longrightarrow> generate_embeddings_endpoint env ''image'' inputs
                = (ErrorResponse (''Input processing error: '' @ m) 400, tr)"
  proof (intro allI impI)
    fix acc tr
    assume "process_batches env ''image'' (plan_batches ''image'' pre) [] [] = (Next acc, tr)"
    with plan have "generate_embeddings_endpoint env ''image'' inputs
           = finish (case run_batch env ''image'' [PStr s] acc tr of
                       (Next acc', tr') \<Rightarrow>
                         process_batches env ''image'' (plan_batches ''image'' post) acc' tr'
                     | (Raise e, tr') \<Rightarrow> (Raise e, tr')
                     | (Return r, tr') \<Rightarrow> (Return r, tr'))"
      by (rule endpoint_reaches)
    with assms(2) m show "generate_embeddings_endpoint env ''image'' inputs
                       = (ErrorResponse (''Input processing error: '' @ m) 400, tr)"
      by (simp add: run_batch_image_undecodable)
  qed
  with m show "\<exists>m. e = ValueError m
            \<and> (\<forall>acc tr.
                  process_batches env ''image'' (plan_batches ''image'' pre) [] [] = (Next acc, tr)
                  \<longrightarrow> generate_embeddings_endpoint env ''image'' inputs
                        = (ErrorResponse (''Input processing error: '' @ m) 400, tr))"
    by blast
next
  have "[PStr s] \<in> set (plan_batches ''image'' inputs)"
    by (simp add: assms(1) plan_batches_image)
  moreover have "\<And>acc tr a tr'. run_batch env ''image'' [PStr s] acc tr \<noteq> (Next a, tr')"
    using assms(2) by (simp add: run_batch_image_undecodable)
  ultimately show "\<exists>msg c. fst (generate_embeddings_endpoint env ''image'' inputs)
            = ErrorResponse msg c \<and> (c = 400 \<or> c = 500)"
    by (rule endpoint_blocked)
qed

text \<open>The theorem at the image request \<open>[ok, bad, fine]\<close>: \<open>ok\<close> is processed, the
  request fails at \<open>bad\<close>, and \<open>fine\<close> is never looked at.\<close>

theorem image_decode_failure_fails_request_witness:
  "[PStr ''ok'', PStr ''bad'', PStr ''fine''] = [PStr ''ok''] @ PStr ''bad'' # [PStr ''fine'']
   \<and> decode_image demo_env (PStr ''bad'')
       = Inl (ValueError ''Failed to decode base64 image: Incorrect padding'')
   \<and> process_batches demo_env ''image'' (plan_batches ''image'' [PStr ''ok'']) [] []
       = (Next [PStr ''ok''], [ProcessorCall, ModelCall, Reclaim])
   \<and> generate_embeddings_endpoint demo_env ''image'' [PStr ''ok'', PStr ''bad'', PStr ''fine'']
       = (ErrorResponse
            ''Input processing error: Failed to decode base64 image: Incorrect padding'' 400,
          [ProcessorCall, ModelCall, Reclaim])"
proof -
  have h1: "[PStr ''ok'', PStr ''bad'', PStr ''fine'']
              = [PStr ''ok''] @ PStr ''bad'' # [PStr ''fine'']"
    by simp
  have h2: "decode_image demo_env (PStr ''bad'')
       = Inl (ValueError ''Failed to decode base64 image: Incorrect padding'')"
    by (simp add: demo_env_def)
  have h3: "process_batches demo_env ''image'' (plan_batches ''image'' [PStr ''ok'']) [] []
       = (Next [PStr ''ok''], [ProcessorCall, ModelCall, Reclaim])"
    by (simp add: plan_batches_def batch_size_def batches_from.simps run_batch_def
        encode_batch_def infer_batch_def demo_env_def)
  from image_decode_failure_fails_request [OF h1 h2] h3
  have "generate_embeddings_endpoint demo_env ''image'' [PStr ''ok'', PStr ''bad'', PStr ''fine'']
       = (ErrorResponse
            ''Input processing error: Failed to decode base64 image: Incorrect padding'' 400,
          [ProcessorCall, ModelCall, Reclaim])"
    by auto
  with h1 h2 h3 show ?thesis by simp
qed



section \<open>The order of the result\<close>

lemma batch_yield_Nil: "batch_yield env it b []"
proof -
  have "list_all2 (item_yield env it) b (map (\<lambda>x. []) b)"
    by (simp add: list_all2_conv_all_nth item_yield_def)
  moreover have "[] = concat (map (\<lambda>x. []) b)" by (induction b) simp_all
  ultimately show ?thesis unfolding batch_yield_def by blast
qed

lemma fallback_yield:
  "\<exists>ds. list_all2 (item_yield env it) xs ds \<and> fst (fallback env it xs acc tr) = acc @ concat ds"
proof (induction xs arbitrary: acc tr)
  case Nil
  show ?case by simp
next
  case (Cons x xs)
  obtain r tr1 where sa: "single_attempt env it x tr = (r, tr1)"
    by (cases "single_attempt env it x tr")
  from Cons.IH [of "acc @ kept r" tr1] obtain ds where ds: "list_all2 (item_yield env it) xs ds"
    "fst (fallback env it xs (acc @ kept r) tr1) = (acc @ kept r) @ concat ds" by blast
  have "item_yield env it x (kept r)"
  proof (cases r)
    case (Inl e)
    then show ?thesis by (simp add: item_yield_def)
  next
    case (Inr vs)
    with sa show ?thesis unfolding item_yield_def by auto
  qed
  with ds(1) have "list_all2 (item_yield env it) (x # xs) (kept r # ds)" by simp
  moreover from sa ds(2) have "fst (fallback env it (x # xs) acc tr) = acc @ concat (kept r # ds)"
    by (cases r) simp_all
  ultimately show ?case by blast
qed

lemma infer_batch_yield:
  assumes "infer_batch env it b pb acc tr1 = (Next acc', tr')"
    and "encode_batch env it b acc0 tr = (Inr pb, tr1)"
  shows "\<exists>c. batch_yield env it b c \<and> acc' = acc @ c"
proof (cases "truthy env pb")
  case False
  with assms(1) have "acc' = acc @ []" by (simp add: infer_batch_def)
  with batch_yield_Nil show ?thesis by blast
next
  case True
  show ?thesis
  proof (cases "run_model env tr1 pb")
    case (Inr vs)
    with True assms(1) have "acc' = acc @ vs" by (simp add: infer_batch_def)
    moreover from Inr assms(2) have "batch_yield env it b vs" unfolding batch_yield_def by blast
    ultimately show ?thesis by blast
  next
    case (Inl e)
    with True assms(1) have "acc' = fst (fallback env it b acc (tr1 @ [ModelCall, Reclaim]))"
      by (auto simp: infer_batch_def split: exn.splits if_splits prod.splits)
    moreover obtain ds where "list_all2 (item_yield env it) b ds"
      "fst (fallback env it b acc (tr1 @ [ModelCall, Reclaim])) = acc @ concat ds"
      using fallback_yield by blast
    ultimately show ?thesis unfolding batch_yield_def by blast
  qed
qed

lemma run_batch_yield:
  assumes "run_batch env it b acc tr = (Next acc', tr')"
  shows "\<exists>c. batch_yield env it b c \<and> acc' = acc @ c"
proof -
  obtain res tr1 where eb: "encode_batch env it b acc tr = (res, tr1)"
    by (cases "encode_batch env it b acc tr")
  show ?thesis
  proof (cases res)
    case (Inl fl)
    with eb assms have "encode_batch env it b acc tr = (Inl (Next acc'), tr')"
      by (simp add: run_batch_def)
    then have "acc' = acc @ []"
      by (auto simp: encode_batch_def split: if_splits sum.splits)
    with batch_yield_Nil show ?thesis by blast
  next
    case (Inr pb)
    with eb assms have "infer_batch env it b pb acc tr1 = (Next acc', tr')"
      by (simp add: run_batch_def)
    moreover from Inr eb have "encode_batch env it b acc tr = (Inr pb, tr1)" by simp
    ultimately show ?thesis by (rule infer_batch_yield)
  qed
qed

lemma process_batches_yield:
  "process_batches env it bs acc tr = (Next acc', tr') \<Longrightarrow>
   \<exists>cs. list_all2 (batch_yield env it) bs cs \<and> acc' = acc @ concat cs"
proof (induction bs arbitrary: acc tr)
  case Nil
  then show ?case by simp
next
  case (Cons b bs)
  obtain fl tr1 where rb: "run_batch env it b acc tr = (fl, tr1)"
    by (cases "run_batch env it b acc tr")
  show ?case
  proof (cases fl)
    case (Raise e)
    with rb Cons.prems show ?thesis by simp
  next
    case (Return r)
    with rb Cons.prems show ?thesis by simp
  next
    case (Next acc1)
    with rb have "run_batch env it b acc tr = (Next acc1, tr1)" by simp
    then obtain c where c: "batch_yield env it b c" "acc1 = acc @ c"
      using run_batch_yield by blast
    from Next rb Cons.prems have "process_batches env it bs acc1 tr1 = (Next acc', tr')" by simp
    then obtain cs where cs: "list_all2 (batch_yield env it) bs cs" "acc' = acc1 @ concat cs"
      using Cons.IH by blast
    from c cs have "list_all2 (batch_yield env it) (b # bs) (c # cs)"
      and "acc' = acc @ concat (c # cs)" by simp_all
    then show ?thesis by blast
  qed
qed

text \<open>
  \<^bold>\<open>C10.\<close> The embeddings of a success response are the concatenation, in the order
  of the planned batches (which is the order of the inputs), of one contribution for
  each batch; the contribution of a batch is what the model returned for the batch as
  a whole, or, after a fallback, the concatenation in the order of its items of one
  contribution for each item: the vectors of its singleton attempt, or nothing when the
  item was dropped. So a vector that comes from an earlier input is never behind one
  that comes from a later input.
\<close>

theorem embeddings_follow_input_order:
  assumes "generate_embeddings_endpoint env it inputs = (Embeddings embs, tr)"
  shows "\<exists>cs. list_all2 (batch_yield env it) (plan_batches it inputs) cs \<and> embs = concat cs"
proof (cases "inputs = []")
  case True
  with assms have "embs = []" by (simp add: generate_embeddings_endpoint_def)
  moreover from True have "plan_batches it inputs = []"
    by (simp add: plan_batches_def batches_from.simps [of _ 0 "[]"])
  ultimately show ?thesis by simp
next
  case False
  obtain fl tr1 where pb: "process_batches env it (plan_batches it inputs) [] [] = (fl, tr1)"
    by (cases "process_batches env it (plan_batches it inputs) [] []")
  with assms False have fin: "finish (fl, tr1) = (Embeddings embs, tr)"
    by (simp add: generate_embeddings_endpoint_def)
  show ?thesis
  proof (cases fl)
    case (Raise e)
    with fin show ?thesis by (cases e) simp_all
  next
    case (Return r)
    with pb have "\<exists>m. r = ErrorResponse m 400" by (simp add: process_batches_Return)
    with Return fin show ?thesis by auto
  next
    case (Next acc)
    with fin have "acc = embs" by simp
    with Next pb have "process_batches env it (plan_batches it inputs) [] [] = (Next embs, tr1)"
      by simp
    then have "\<exists>cs. list_all2 (batch_yield env it) (plan_batches it inputs) cs
                  \<and> embs = [] @ concat cs"
      by (rule process_batches_yield)
    then show ?thesis by simp
  qed
qed

text \<open>The theorem at a text request of five items whose first batch falls back and
  loses its second item.\<close>

theorem embeddings_follow_input_order_witness:
  "generate_embeddings_endpoint demo_env ''text''
      [PStr ''a'', PStr ''big'', PStr ''c'', PStr ''d'', PStr ''e'']
     = (Embeddings [PStr ''a'', PStr ''c'', PStr ''d'', PStr ''e''],
        [ProcessorCall, ModelCall, Reclaim,
         ProcessorCall, ModelCall, Reclaim,
         ProcessorCall, ModelCall,
         ProcessorCall, ModelCall, Reclaim,
         ProcessorCall, ModelCall, Reclaim,
         ProcessorCall, ModelCall, Reclaim,
         Reclaim])
   \<and> (\<exists>cs. list_all2 (batch_yield demo_env ''text'')
               (plan_batches ''text'' [PStr ''a'', PStr ''big'', PStr ''c'', PStr ''d'', PStr ''e'']) cs
           \<and> [PStr ''a'', PStr ''c'', PStr ''d'', PStr ''e''] = concat cs)"
proof -
  have h: "generate_embeddings_endpoint demo_env ''text''
      [PStr ''a'', PStr ''big'', PStr ''c'', PStr ''d'', PStr ''e'']
     = (Embeddings [PStr ''a'', PStr ''c'', PStr ''d'', PStr ''e''],
        [ProcessorCall, ModelCall, Reclaim,
         ProcessorCall, ModelCall, Reclaim,
         ProcessorCall, ModelCall,
         ProcessorCall, ModelCall, Reclaim,
         ProcessorCall, ModelCall, Reclaim,
         ProcessorCall, ModelCall, Reclaim,
         Reclaim])"
    by (simp add: generate_embeddings_endpoint_def plan_batches_def batch_size_def
      batches_from.simps run_batch_def encode_batch_def infer_batch_def single_attempt_def
      demo_env_def)
  from embeddings_follow_input_order [OF h] h show ?thesis by (intro conjI)
qed


end
